theory Spec2Isabelle
  imports Main "HOL-Library.Word"
begin

section \<open>The C memory the shim works on\<close>

text \<open>
  The functions of \<^verbatim>\<open>native_ffi.c\<close> take and return raw C pointers, call
  \<^verbatim>\<open>malloc\<close>, \<^verbatim>\<open>free\<close>, \<^verbatim>\<open>strlen\<close>, \<^verbatim>\<open>strcpy\<close>, \<^verbatim>\<open>snprintf\<close> and \<^verbatim>\<open>time\<close>, and
  compute on \<^verbatim>\<open>int32_t\<close>, \<^verbatim>\<open>int64_t\<close> and \<^verbatim>\<open>size_t\<close>. The model below makes each of
  these explicit.

  \<^item> Integers are machine words. \<^verbatim>\<open>size_t\<close> is 64 bits wide, as on the arm64 targets
    the project is built for. Arithmetic on words wraps around; for the signed
    \<^verbatim>\<open>int32_t\<close> this is the two's complement result that the target's add instruction
    gives.
  \<^item> The library calls behave as ISO C describes them. \<^verbatim>\<open>snprintf\<close> returns an \<^verbatim>\<open>int\<close>:
    when the text to print is longer than \<^verbatim>\<open>INT_MAX\<close> the standard does not say what
    the buffer holds afterwards, and implementations fail or cut the text, each in its
    own way. The world carries that behaviour as well (\<open>snprintf_overflow\<close>: the
    cells such a call leaves at the start of the buffer).
  \<^item> A pointer is \<open>NULL\<close>, the address of a heap block, or the address of a string
    literal in static storage (\<open>Lit\<close>, carrying the literal's characters).
  \<^item> The heap is a list of slots, a block's address being its index. A slot holds a
    character buffer, an \<^verbatim>\<open>int32_t\<close> array or a \<^verbatim>\<open>SystemInfo\<close> record, or \<open>None\<close> once the
    block has been released. Memory that \<^verbatim>\<open>malloc\<close> has handed out and nobody has written
    yet is \<open>None\<close> inside the block.
  \<^item> Whether a call of \<^verbatim>\<open>malloc\<close> succeeds is decided by the environment: the world carries
    the outcomes of the coming calls (\<open>mallocs\<close>), \<open>True\<close> for a call that succeeds. A
    call that finds no outcome left fails, too.
  \<^item> What the C standard leaves undefined (writing through \<open>NULL\<close>, reading past a
    block, releasing a block twice) is a \<open>fault\<close>, returned as \<open>Inl\<close>.
  \<^item> \<open>released\<close> logs the addresses handed to \<^verbatim>\<open>free\<close>, in the order of the calls, and
    \<open>clock\<close> is what \<^verbatim>\<open>time(NULL)\<close> reads: the wall-clock time in seconds.
\<close>

type_synonym addr = nat
type_synonym int32_t = "32 word"
type_synonym int64_t = "64 word"
type_synonym size_t = "64 word"

datatype ptr = NULL | Ptr addr | Lit string

record SystemInfo =
  platform :: "ptr option"
  version :: "ptr option"
  timestamp :: "int64_t option"

datatype obj = Chars "char option list" | Ints "int32_t list" | Info SystemInfo

datatype fault = Null_read | Null_write | Bad_access | Out_of_bounds | Uninit_read | Invalid_free

record world =
  heap :: "obj option list"
  mallocs :: "bool list"
  clock :: int64_t
  released :: "addr list"
  snprintf_overflow :: "size_t \<Rightarrow> string \<Rightarrow> char option list"

abbreviation NUL :: char where
  "NUL \<equiv> CHR 0x00"

abbreviation INT_MAX :: nat where
  "INT_MAX \<equiv> 2147483647"

definition bind_r :: "fault + 'a \<Rightarrow> ('a \<Rightarrow> fault + 'b) \<Rightarrow> fault + 'b" where
  "bind_r m f = (case m of Inl e \<Rightarrow> Inl e | Inr x \<Rightarrow> f x)"

definition load :: "world \<Rightarrow> addr \<Rightarrow> obj option" where
  "load s a = (if a < length (heap s) then heap s ! a else None)"

definition store :: "addr \<Rightarrow> obj \<Rightarrow> world \<Rightarrow> world" where
  "store a ob s = s\<lparr>heap := (heap s)[a := Some ob]\<rparr>"

subsection \<open>The C library calls\<close>

text \<open>\<^verbatim>\<open>malloc\<close>: a fresh block holding \<open>ob\<close> (the block as it is before anything is
  written to it), or \<open>NULL\<close>. One outcome of \<open>mallocs\<close> is used up by each call.
  \<open>malloc_ok s k\<close> says that, from \<open>s\<close> on, the call after the next \<open>k\<close> calls succeeds.\<close>

definition malloc_ok :: "world \<Rightarrow> nat \<Rightarrow> bool" where
  "malloc_ok s k = (k < length (mallocs s) \<and> mallocs s ! k)"

definition malloc :: "obj \<Rightarrow> world \<Rightarrow> ptr \<times> world" where
  "malloc ob s =
     (if malloc_ok s 0
      then (Ptr (length (heap s)), s\<lparr>heap := heap s @ [Some ob], mallocs := tl (mallocs s)\<rparr>)
      else (NULL, s\<lparr>mallocs := tl (mallocs s)\<rparr>))"

text \<open>\<^verbatim>\<open>free\<close>: nothing on \<open>NULL\<close>; a live block is released; anything else is undefined.\<close>

definition free :: "ptr \<Rightarrow> world \<Rightarrow> fault + world" where
  "free p s =
     (case p of
        NULL \<Rightarrow> Inr s
      | Lit cs \<Rightarrow> Inl Invalid_free
      | Ptr a \<Rightarrow>
          (case load s a of
             None \<Rightarrow> Inl Invalid_free
           | Some ob \<Rightarrow> Inr (s\<lparr>heap := (heap s)[a := None], released := released s @ [a]\<rparr>)))"

text \<open>The characters of a buffer up to its first terminator. Running off the block or
  into memory never written is a fault.\<close>

fun c_chars :: "char option list \<Rightarrow> fault + string" where
  "c_chars [] = Inl Out_of_bounds"
| "c_chars (None # cs) = Inl Uninit_read"
| "c_chars (Some c # cs) =
     (if c = NUL then Inr []
      else (case c_chars cs of Inl e \<Rightarrow> Inl e | Inr r \<Rightarrow> Inr (c # r)))"

definition c_str :: "world \<Rightarrow> ptr \<Rightarrow> fault + string" where
  "c_str s p =
     (case p of
        NULL \<Rightarrow> Inl Null_read
      | Lit cs \<Rightarrow> c_chars (map Some cs @ [Some NUL])
      | Ptr a \<Rightarrow>
          (case load s a of
             Some (Chars cs) \<Rightarrow> c_chars cs
           | _ \<Rightarrow> Inl Bad_access))"

definition strlen :: "ptr \<Rightarrow> world \<Rightarrow> fault + size_t" where
  "strlen p s = bind_r (c_str s p) (\<lambda>cs. Inr (of_nat (length cs)))"

text \<open>Writing cells, and in particular the characters \<open>cs\<close>, to the start of a
  character buffer.\<close>

definition write_cells :: "ptr \<Rightarrow> char option list \<Rightarrow> world \<Rightarrow> fault + world" where
  "write_cells p cells s =
     (case p of
        NULL \<Rightarrow> Inl Null_write
      | Lit l \<Rightarrow> Inl Bad_access
      | Ptr a \<Rightarrow>
          (case load s a of
             Some (Chars old) \<Rightarrow>
               if length cells \<le> length old
               then Inr (store a (Chars (cells @ drop (length cells) old)) s)
               else Inl Out_of_bounds
           | _ \<Rightarrow> Inl Bad_access))"

definition write_chars :: "ptr \<Rightarrow> string \<Rightarrow> world \<Rightarrow> fault + world" where
  "write_chars p cs s = write_cells p (map Some cs) s"

definition strcpy :: "ptr \<Rightarrow> ptr \<Rightarrow> world \<Rightarrow> fault + world" where
  "strcpy dst src s = bind_r (c_str s src) (\<lambda>cs. write_chars dst (cs @ [NUL]) s)"

text \<open>\<^verbatim>\<open>snprintf(str, n, "Hello, %s!", arg)\<close>, the one format the shim uses. Nothing
  is written when \<open>n = 0\<close>. A text of at most \<^verbatim>\<open>INT_MAX\<close> characters is written up to
  its first \<open>n - 1\<close> characters, followed by a terminator. For a longer text the call
  leaves in the buffer what the implementation at hand leaves there, within the
  \<open>n\<close> bytes it may write. The return value is dropped, as the caller drops it.\<close>

definition snprintf_hello :: "ptr \<Rightarrow> size_t \<Rightarrow> ptr \<Rightarrow> world \<Rightarrow> fault + world" where
  "snprintf_hello str n arg s =
     bind_r (c_str s arg) (\<lambda>cs.
       if n = 0 then Inr s
       else if length (''Hello, '' @ cs @ ''!'') \<le> INT_MAX
       then write_chars str (take (unat n - 1) (''Hello, '' @ cs @ ''!'') @ [NUL]) s
       else write_cells str (take (unat n) (snprintf_overflow s n cs)) s)"

definition time :: "world \<Rightarrow> int64_t" where
  "time s = clock s"

text \<open>Reading and writing a field of a \<^verbatim>\<open>SystemInfo\<close> through a pointer.\<close>

definition get_field :: "ptr \<Rightarrow> (SystemInfo \<Rightarrow> 'a option) \<Rightarrow> world \<Rightarrow> fault + 'a" where
  "get_field p sel s =
     (case p of
        NULL \<Rightarrow> Inl Null_read
      | Lit l \<Rightarrow> Inl Bad_access
      | Ptr a \<Rightarrow>
          (case load s a of
             Some (Info r) \<Rightarrow> (case sel r of None \<Rightarrow> Inl Uninit_read | Some v \<Rightarrow> Inr v)
           | _ \<Rightarrow> Inl Bad_access))"

definition set_field :: "ptr \<Rightarrow> (SystemInfo \<Rightarrow> SystemInfo) \<Rightarrow> world \<Rightarrow> fault + world" where
  "set_field p upd s =
     (case p of
        NULL \<Rightarrow> Inl Null_write
      | Lit l \<Rightarrow> Inl Bad_access
      | Ptr a \<Rightarrow>
          (case load s a of
             Some (Info r) \<Rightarrow> Inr (store a (Info (upd r)) s)
           | _ \<Rightarrow> Inl Bad_access))"

text \<open>\<^verbatim>\<open>array[i]\<close> on an \<^verbatim>\<open>int32_t\<close> array.\<close>

definition index_int :: "ptr \<Rightarrow> int32_t \<Rightarrow> world \<Rightarrow> fault + int32_t" where
  "index_int p i s =
     (case p of
        NULL \<Rightarrow> Inl Null_read
      | Lit l \<Rightarrow> Inl Bad_access
      | Ptr a \<Rightarrow>
          (case load s a of
             Some (Ints xs) \<Rightarrow>
               if 0 \<le> sint i \<and> nat (sint i) < length xs then Inr (xs ! nat (sint i))
               else Inl Out_of_bounds
           | _ \<Rightarrow> Inl Bad_access))"

section \<open>The functions of native\_ffi.c\<close>

definition native_add :: "int32_t \<Rightarrow> int32_t \<Rightarrow> int32_t" where
  "native_add a b = a + b"

text \<open>The cast \<^verbatim>\<open>(int32_t)strlen(str)\<close> keeps the low 32 bits of the \<^verbatim>\<open>size_t\<close>.\<close>

definition native_string_length :: "ptr \<Rightarrow> world \<Rightarrow> fault + int32_t" where
  "native_string_length str s =
     (if str = NULL then Inr 0
      else bind_r (strlen str s) (\<lambda>n. Inr (ucast n)))"

definition native_get_greeting :: "ptr \<Rightarrow> world \<Rightarrow> fault + ptr \<times> world" where
  "native_get_greeting name0 s =
     (let name = (if name0 = NULL then Lit ''World'' else name0) in
      bind_r (strlen (Lit ''Hello, '') s) (\<lambda>l1.
      bind_r (strlen name s) (\<lambda>l2.
      bind_r (strlen (Lit ''!'') s) (\<lambda>l3.
        let greeting_size = l1 + l2 + l3 + 1;
            (greeting, s1) = malloc (Chars (replicate (unat greeting_size) None)) s
        in if greeting \<noteq> NULL
           then bind_r (snprintf_hello greeting greeting_size name s1) (\<lambda>s2. Inr (greeting, s2))
           else Inr (greeting, s1)))))"

text \<open>The loop of \<^verbatim>\<open>native_sum_array\<close>: \<open>i\<close> and \<open>sum_acc\<close> are its two variables
  (\<^verbatim>\<open>i\<close> and \<^verbatim>\<open>sum\<close> in the source). The loop ends because \<open>i\<close> stays below \<open>len\<close>, so
  that \<open>i + 1\<close> never wraps.\<close>

function sum_loop :: "ptr \<Rightarrow> int32_t \<Rightarrow> world \<Rightarrow> int32_t \<Rightarrow> int32_t \<Rightarrow> fault + int32_t" where
  "sum_loop array len s i sum_acc =
     (if i <s len
      then (case index_int array i s of
              Inl e \<Rightarrow> Inl e
            | Inr x \<Rightarrow> sum_loop array len s (i + 1) (sum_acc + x))
      else Inr sum_acc)"
  by pat_completeness auto
termination
proof (relation "measure (\<lambda>(array, len, s, i, sum_acc). nat (sint len - sint i))")
  show "wf (measure (\<lambda>(array :: ptr, len :: int32_t, s :: world, i :: int32_t, sum_acc :: int32_t).
              nat (sint len - sint i)))"
    by simp
next
  fix array :: ptr and len i sum_acc x :: int32_t and s :: world
  assume below: "i <s len"
  have "sint len < 2 ^ 31"
    using sint_lt [of len] by simp
  moreover have "- (2 ^ 31) \<le> sint i"
    using sint_ge [of i] by simp
  ultimately have "signed_take_bit 31 (sint i + 1) = sint i + 1"
    using below by (simp add: word_sless_alt signed_take_bit_int_eq_self)
  then have "sint (i + 1) = sint i + 1"
    by (simp add: sint_word_ariths)
  then show "((array, len, s, i + 1, sum_acc + x), (array, len, s, i, sum_acc))
               \<in> measure (\<lambda>(array, len, s, i, sum_acc). nat (sint len - sint i))"
    using below by (simp add: word_sless_alt)
qed

definition native_sum_array :: "ptr \<Rightarrow> int32_t \<Rightarrow> world \<Rightarrow> fault + int32_t" where
  "native_sum_array array len s =
     (if array = NULL \<or> len \<le>s 0 then Inr 0
      else sum_loop array len s 0 0)"

definition native_free_string :: "ptr \<Rightarrow> world \<Rightarrow> fault + world" where
  "native_free_string str s = (if str \<noteq> NULL then free str s else Inr s)"

definition native_get_system_info :: "world \<Rightarrow> fault + ptr \<times> world" where
  "native_get_system_info s =
     (let (info, s1) = malloc (Info \<lparr>platform = None, version = None, timestamp = None\<rparr>) s
      in if info = NULL then Inr (NULL, s1)
         else
           let (platform_p, s2) = malloc (Chars (replicate 4 None)) s1 in
           bind_r (strcpy platform_p (Lit ''iOS'') s2) (\<lambda>s3.
           bind_r (set_field info (\<lambda>r. r\<lparr>platform := Some platform_p\<rparr>) s3) (\<lambda>s4.
           let (version_p, s5) = malloc (Chars (replicate 6 None)) s4 in
           bind_r (strcpy version_p (Lit ''1.0.0'') s5) (\<lambda>s6.
           bind_r (set_field info (\<lambda>r. r\<lparr>version := Some version_p\<rparr>) s6) (\<lambda>s7.
           bind_r (set_field info (\<lambda>r. r\<lparr>timestamp := Some (time s7)\<rparr>) s7) (\<lambda>s8.
           Inr (info, s8)))))))"

definition native_free_system_info :: "ptr \<Rightarrow> world \<Rightarrow> fault + world" where
  "native_free_system_info info s =
     (if info \<noteq> NULL
      then
        bind_r (get_field info platform s) (\<lambda>p.
        bind_r (if p \<noteq> NULL then free p s else Inr s) (\<lambda>s1.
        bind_r (get_field info version s1) (\<lambda>v.
        bind_r (if v \<noteq> NULL then free v s1 else Inr s1) (\<lambda>s2.
        free info s2))))
      else Inr s)"

section \<open>Vocabulary of the statements\<close>

text \<open>The blocks a pointer stands for: none for \<open>NULL\<close>, one for a heap address.\<close>

definition addrs :: "ptr \<Rightarrow> addr list" where
  "addrs p = (case p of Ptr a \<Rightarrow> [a] | _ \<Rightarrow> [])"

text \<open>A pointer that may be stored in a record that will be released: \<open>NULL\<close>, or the
  address of a block that is live.\<close>

definition releasable :: "world \<Rightarrow> ptr \<Rightarrow> bool" where
  "releasable s p = (case p of NULL \<Rightarrow> True | Ptr a \<Rightarrow> load s a \<noteq> None | Lit cs \<Rightarrow> False)"

text \<open>The heap after the blocks \<open>as\<close> have been released, one after the other.\<close>

definition release_all :: "addr list \<Rightarrow> obj option list \<Rightarrow> obj option list" where
  "release_all as h = fold (\<lambda>a h'. h'[a := None]) as h"

text \<open>The string a pointer field of a record points to.\<close>

definition info_text :: "ptr \<Rightarrow> (SystemInfo \<Rightarrow> ptr option) \<Rightarrow> world \<Rightarrow> fault + string" where
  "info_text p sel s = bind_r (get_field p sel s) (c_str s)"

subsection \<open>Concrete worlds\<close>

text \<open>An implementation of \<^verbatim>\<open>snprintf\<close> that prints conversion by conversion and stops
  after the one that takes the count of characters beyond \<^verbatim>\<open>INT_MAX\<close>: a name that fits
  after \<open>Hello, \<close> is still followed by the \<open>!\<close>, a longer name is not.\<close>

definition stop_at_overflow :: "size_t \<Rightarrow> string \<Rightarrow> char option list" where
  "stop_at_overflow n cs =
     map Some
       ((if length (''Hello, '' @ cs) \<le> INT_MAX then ''Hello, '' @ cs @ ''!''
         else ''Hello, '' @ cs) @ [NUL])"

definition mk_world :: "obj option list \<Rightarrow> bool list \<Rightarrow> world" where
  "mk_world h ms =
     \<lparr>heap = h, mallocs = ms, clock = 1700000000, released = [],
      snprintf_overflow = stop_at_overflow\<rparr>"

text \<open>A world whose only block is a string of \<open>n\<close> letters, with one allocation to come.\<close>

definition long_name :: "nat \<Rightarrow> string" where
  "long_name n = replicate n CHR ''A''"

definition long_world :: "nat \<Rightarrow> world" where
  "long_world n = mk_world [Some (Chars (map Some (long_name n @ [NUL])))] [True]"

text \<open>The world \<open>long_world n\<close> after a greeting for its string has been built.\<close>

definition long_greeted :: "nat \<Rightarrow> world" where
  "long_greeted n =
     (long_world n)
       \<lparr>heap := heap (long_world n) @
                 [Some (Chars (map Some ((''Hello, '' @ long_name n @ ''!'') @ [NUL])))],
        mallocs := tl (mallocs (long_world n))\<rparr>"

text \<open>The same, when the text was cut after the name and the last byte of the block
  was left as it was.\<close>

definition long_cut :: "nat \<Rightarrow> world" where
  "long_cut n =
     (long_world n)
       \<lparr>heap := heap (long_world n) @
                 [Some (Chars (map Some ((''Hello, '' @ long_name n) @ [NUL]) @ [None]))],
        mallocs := tl (mallocs (long_world n))\<rparr>"

definition ada_world :: world where
  "ada_world = mk_world [Some (Chars (map Some (''Ada'' @ [NUL])))] [True]"

definition ints_world :: "int32_t list \<Rightarrow> world" where
  "ints_world xs = mk_world [Some (Ints xs)] []"

text \<open>A record at address 0 whose fields point to the blocks 1 and 2, and one whose
  platform field is \<open>NULL\<close>.\<close>

definition info_world :: "ptr \<Rightarrow> world" where
  "info_world p =
     mk_world
       [Some (Info \<lparr>platform = Some p, version = Some (Ptr 2), timestamp = Some 1700000000\<rparr>),
        Some (Chars (map Some (''iOS'' @ [NUL]))),
        Some (Chars (map Some (''1.0.0'' @ [NUL])))] []"

section \<open>Facts about the memory model\<close>

lemma bind_r_simps [simp]:
  "bind_r (Inl e) f = Inl e"
  "bind_r (Inr x) f = f x"
  by (simp_all add: bind_r_def)

lemma c_chars_terminated:
  "NUL \<notin> set bs \<Longrightarrow> c_chars (map Some bs @ Some NUL # rest) = Inr bs"
  by (induction bs) auto

lemma c_chars_Inr:
  "c_chars cs = Inr bs \<Longrightarrow> NUL \<notin> set bs \<and> (\<exists>rest. cs = map Some bs @ Some NUL # rest)"
proof (induction cs arbitrary: bs rule: c_chars.induct)
  case 1
  then show ?case by simp
next
  case (2 cs)
  then show ?case by simp
next
  case (3 c cs)
  show ?case
  proof (cases "c = NUL")
    case True
    with 3 show ?thesis by auto
  next
    case False
    with 3 show ?thesis
      by (auto split: sum.splits)
  qed
qed

lemma c_str_no_NUL: "c_str s p = Inr bs \<Longrightarrow> NUL \<notin> set bs"
  by (auto simp: c_str_def dest: c_chars_Inr split: ptr.splits option.splits obj.splits)

lemma c_str_not_NULL: "c_str s p = Inr bs \<Longrightarrow> p \<noteq> NULL"
  by (auto simp: c_str_def)

lemma c_str_Lit: "NUL \<notin> set cs \<Longrightarrow> c_str s (Lit cs) = Inr cs"
  by (simp add: c_str_def c_chars_terminated)

lemma c_str_block:
  "load s a = Some (Chars (map Some (bs @ [NUL]))) \<Longrightarrow> NUL \<notin> set bs \<Longrightarrow>
   c_str s (Ptr a) = Inr bs"
  by (simp add: c_str_def c_chars_terminated)

lemma c_str_block_rest:
  "load s a = Some (Chars (map Some (bs @ [NUL]) @ rest)) \<Longrightarrow> NUL \<notin> set bs \<Longrightarrow>
   c_str s (Ptr a) = Inr bs"
  by (simp add: c_str_def c_chars_terminated)

lemma strlen_Lit: "NUL \<notin> set cs \<Longrightarrow> strlen (Lit cs) s = Inr (of_nat (length cs))"
  by (simp add: strlen_def c_str_Lit)

lemma strlen_c_str: "c_str s p = Inr cs \<Longrightarrow> strlen p s = Inr (of_nat (length cs))"
  by (simp add: strlen_def)

text \<open>A block that exists before \<^verbatim>\<open>malloc\<close> is called is still there afterwards.\<close>

lemma load_grow:
  "load s a = Some ob \<Longrightarrow> load (s\<lparr>heap := heap s @ xs, mallocs := m\<rparr>) a = Some ob"
  by (auto simp: load_def nth_append split: if_splits)

lemma c_str_grow:
  "c_str s p = Inr cs \<Longrightarrow> c_str (s\<lparr>heap := heap s @ xs, mallocs := m\<rparr>) p = Inr cs"
  by (auto simp: c_str_def load_grow split: ptr.splits option.splits obj.splits)

subsection \<open>Conversions between the integer types\<close>

lemma ucast_of_nat_64_32: "(ucast (of_nat n :: size_t) :: int32_t) = of_nat n"
  by (rule bit_word_eqI) (auto simp add: bit_simps)

lemma sint_of_nat_small: "n < 2 ^ 31 \<Longrightarrow> sint (of_nat n :: int32_t) = int n"
  by (simp add: signed_of_nat signed_take_bit_int_eq_self)

lemma unat_of_nat_64: "n < 2 ^ 64 \<Longrightarrow> unat (of_nat n :: size_t) = n"
  by (simp add: unsigned_of_nat take_bit_nat_eq_self)

lemma unat_greeting_size:
  assumes "n + 9 < 2 ^ 64"
  shows "unat (9 + of_nat n :: size_t) = n + 9"
proof -
  have "(9 + of_nat n :: size_t) = of_nat (n + 9)"
    by simp
  then show ?thesis
    using assms by (simp only: unat_of_nat_64)
qed

lemma sint_succ_below:
  fixes i len :: int32_t
  assumes "i <s len"
  shows "sint (i + 1) = sint i + 1"
proof -
  have "sint len < 2 ^ 31"
    using sint_lt [of len] by simp
  moreover have "- (2 ^ 31) \<le> sint i"
    using sint_ge [of i] by simp
  ultimately have "signed_take_bit 31 (sint i + 1) = sint i + 1"
    using assms by (simp add: word_sless_alt signed_take_bit_int_eq_self)
  then show ?thesis
    by (simp add: sint_word_ariths)
qed

lemma sum_list_word: "(sum_list ws :: int32_t) = word_of_int (sum_list (map sint ws))"
  by (induction ws) simp_all

lemma sint_sum_list:
  "sint (sum_list ws :: int32_t) = (sum_list (map sint ws) + 2 ^ 31) mod 2 ^ 32 - 2 ^ 31"
  by (simp add: sum_list_word [of ws] signed_of_int signed_take_bit_eq_take_bit_shift
      take_bit_eq_mod)

subsection \<open>The outcomes of malloc\<close>

lemma malloc_ok_0: "malloc_ok s 0 \<longleftrightarrow> (\<exists>rest. mallocs s = True # rest)"
  by (cases "mallocs s") (auto simp: malloc_ok_def)

lemma malloc_ok_1:
  "malloc_ok s 0 \<Longrightarrow> malloc_ok s 1 \<longleftrightarrow> (\<exists>rest. mallocs s = True # True # rest)"
  by (cases "mallocs s"; cases "tl (mallocs s)") (auto simp: malloc_ok_def)

lemma malloc_ok_2:
  "malloc_ok s 0 \<Longrightarrow> malloc_ok s 1 \<Longrightarrow>
   malloc_ok s 2 \<longleftrightarrow> (\<exists>rest. mallocs s = True # True # True # rest)"
  by (cases "mallocs s"; cases "tl (mallocs s)"; cases "tl (tl (mallocs s))")
     (auto simp: malloc_ok_def numeral_2_eq_2)

lemma malloc_ok_two:
  assumes "malloc_ok s 0" and "malloc_ok s 1"
  obtains rest where "mallocs s = True # True # rest"
  using assms malloc_ok_1 by blast

lemma malloc_ok_three:
  assumes "malloc_ok s 0" and "malloc_ok s 1" and "malloc_ok s 2"
  obtains rest where "mallocs s = True # True # True # rest"
  using assms malloc_ok_2 by blast

section \<open>What each function computes\<close>

subsection \<open>native\_get\_greeting\<close>

lemma snprintf_hello_exact:
  assumes "c_str s arg = Inr nm"
    and "load s a = Some (Chars (replicate (unat n) None))"
    and "unat n = length nm + 9"
    and "length nm + 8 \<le> INT_MAX"
  shows "snprintf_hello (Ptr a) n arg s =
           Inr (store a (Chars (map Some (''Hello, '' @ nm @ ''!'' @ [NUL]))) s)"
proof -
  have "n \<noteq> 0"
    using assms(3) by auto
  then show ?thesis
    using assms by (simp add: snprintf_hello_def write_chars_def write_cells_def)
qed

lemma snprintf_hello_overflow:
  assumes "c_str s arg = Inr nm"
    and "load s a = Some (Chars (replicate (unat n) None))"
    and "unat n = length nm + 9"
    and "INT_MAX < length nm + 8"
    and "snprintf_overflow s n nm = cells"
    and "length cells \<le> length nm + 9"
  shows "snprintf_hello (Ptr a) n arg s =
           Inr (store a (Chars (cells @ replicate (length nm + 9 - length cells) None)) s)"
proof -
  have "n \<noteq> 0"
    using assms(3) by auto
  then show ?thesis
    using assms by (simp add: snprintf_hello_def write_cells_def)
qed

lemma snprintf_hello_bounded:
  assumes "c_str s arg = Inr nm"
    and "load s a = Some (Chars old)"
    and "length old = unat n"
  shows "\<exists>s'. snprintf_hello (Ptr a) n arg s = Inr s'"
proof (cases "n = 0")
  case True
  then show ?thesis
    using assms by (simp add: snprintf_hello_def)
next
  case False
  then have pos: "0 < unat n"
    by (simp add: unat_gt_0)
  have "length (map Some (take (unat n - 1) (''Hello, '' @ nm @ ''!'') @ [NUL])) \<le> length old"
    using pos assms(3) by simp
  moreover have "length (take (unat n) (snprintf_overflow s n nm)) \<le> length old"
    using assms(3) by simp
  ultimately show ?thesis
    using assms(1,2) False
    by (simp add: snprintf_hello_def write_chars_def write_cells_def del: length_map length_take
        length_append)
qed

lemma greeting_NULL: "native_get_greeting NULL s = native_get_greeting (Lit ''World'') s"
  by (simp add: native_get_greeting_def)

lemma greeting_success:
  assumes name: "c_str s name = Inr nm"
    and small: "length nm + 8 \<le> INT_MAX"
    and ok: "malloc_ok s 0"
  shows "native_get_greeting name s =
           Inr (Ptr (length (heap s)),
                s\<lparr>heap := heap s @ [Some (Chars (map Some ((''Hello, '' @ nm @ ''!'') @ [NUL])))],
                  mallocs := tl (mallocs s)\<rparr>)"
proof -
  have nn: "name \<noteq> NULL"
    using name by (rule c_str_not_NULL)
  have l2: "strlen name s = Inr (of_nat (length nm))"
    using name by (rule strlen_c_str)
  have "length nm + 9 < 2 ^ 64"
    using small by simp
  then have sz: "unat (9 + of_nat (length nm) :: size_t) = length nm + 9"
    by (rule unat_greeting_size)
  let ?s1 = "s\<lparr>heap := heap s @ [Some (Chars (replicate (length nm + 9) None))],
               mallocs := tl (mallocs s)\<rparr>"
  have rd: "c_str ?s1 name = Inr nm"
    using name by (rule c_str_grow)
  have ld: "load ?s1 (length (heap s)) =
              Some (Chars (replicate (unat (9 + of_nat (length nm) :: size_t)) None))"
    by (simp add: load_def sz)
  have wr: "snprintf_hello (Ptr (length (heap s))) (9 + of_nat (length nm)) name ?s1 =
              Inr (store (length (heap s))
                     (Chars (map Some (''Hello, '' @ nm @ ''!'' @ [NUL]))) ?s1)"
    using rd ld sz small by (rule snprintf_hello_exact)
  show ?thesis
    using nn ok
    by (simp add: native_get_greeting_def strlen_Lit l2 malloc_def sz wr store_def)
qed

text \<open>The greeting for a name whose text is longer than \<^verbatim>\<open>INT_MAX\<close>: the block holds what
  the implementation of \<^verbatim>\<open>snprintf\<close> leaves in it.\<close>

lemma greeting_overflow:
  assumes name: "c_str s name = Inr nm"
    and big: "INT_MAX < length nm + 8"
    and fits: "length nm + 9 < 2 ^ 64"
    and ok: "malloc_ok s 0"
    and cells: "snprintf_overflow s (9 + of_nat (length nm)) nm = cells"
    and bound: "length cells \<le> length nm + 9"
  shows "native_get_greeting name s =
           Inr (Ptr (length (heap s)),
                s\<lparr>heap := heap s @
                       [Some (Chars (cells @ replicate (length nm + 9 - length cells) None))],
                  mallocs := tl (mallocs s)\<rparr>)"
proof -
  have nn: "name \<noteq> NULL"
    using name by (rule c_str_not_NULL)
  have l2: "strlen name s = Inr (of_nat (length nm))"
    using name by (rule strlen_c_str)
  have sz: "unat (9 + of_nat (length nm) :: size_t) = length nm + 9"
    using fits by (rule unat_greeting_size)
  let ?s1 = "s\<lparr>heap := heap s @ [Some (Chars (replicate (length nm + 9) None))],
               mallocs := tl (mallocs s)\<rparr>"
  have rd: "c_str ?s1 name = Inr nm"
    using name by (rule c_str_grow)
  have ld: "load ?s1 (length (heap s)) =
              Some (Chars (replicate (unat (9 + of_nat (length nm) :: size_t)) None))"
    by (simp add: load_def sz)
  have ce: "snprintf_overflow ?s1 (9 + of_nat (length nm)) nm = cells"
    using cells by simp
  have wr: "snprintf_hello (Ptr (length (heap s))) (9 + of_nat (length nm)) name ?s1 =
              Inr (store (length (heap s))
                     (Chars (cells @ replicate (length nm + 9 - length cells) None)) ?s1)"
    using rd ld sz big ce bound by (rule snprintf_hello_overflow)
  show ?thesis
    using nn ok
    by (simp add: native_get_greeting_def strlen_Lit l2 malloc_def sz wr store_def)
qed

lemma greeting_cut:
  assumes name: "c_str s name = Inr nm"
    and big: "INT_MAX < length nm + 7"
    and fits: "length nm + 9 < 2 ^ 64"
    and ok: "malloc_ok s 0"
    and impl: "snprintf_overflow s = stop_at_overflow"
  shows "native_get_greeting name s =
           Inr (Ptr (length (heap s)),
                s\<lparr>heap := heap s @
                       [Some (Chars (map Some ((''Hello, '' @ nm) @ [NUL]) @ [None]))],
                  mallocs := tl (mallocs s)\<rparr>)"
proof -
  let ?cells = "map Some ((''Hello, '' @ nm) @ [NUL])"
  have c: "snprintf_overflow s (9 + of_nat (length nm)) nm = ?cells"
    using big by (simp add: impl stop_at_overflow_def)
  have l: "length ?cells \<le> length nm + 9"
    by simp
  have r: "replicate (length nm + 9 - length ?cells) None = [None :: char option]"
    by simp
  have "INT_MAX < length nm + 8"
    using big by simp
  from greeting_overflow [OF name this fits ok c l] show ?thesis
    by (simp only: r)
qed

lemma greeting_full_at_limit:
  assumes name: "c_str s name = Inr nm"
    and limit: "length nm + 7 = INT_MAX"
    and ok: "malloc_ok s 0"
    and impl: "snprintf_overflow s = stop_at_overflow"
  shows "native_get_greeting name s =
           Inr (Ptr (length (heap s)),
                s\<lparr>heap := heap s @
                       [Some (Chars (map Some ((''Hello, '' @ nm @ ''!'') @ [NUL])))],
                  mallocs := tl (mallocs s)\<rparr>)"
proof -
  let ?cells = "map Some ((''Hello, '' @ nm @ ''!'') @ [NUL])"
  have c: "snprintf_overflow s (9 + of_nat (length nm)) nm = ?cells"
    using limit by (simp add: impl stop_at_overflow_def)
  have l: "length ?cells \<le> length nm + 9"
    by simp
  have r: "?cells @ replicate (length nm + 9 - length ?cells) None = ?cells"
    by simp
  have big: "INT_MAX < length nm + 8"
    using limit by simp
  have fits: "length nm + 9 < 2 ^ 64"
    using limit by simp
  from greeting_overflow [OF name big fits ok c l] show ?thesis
    by (simp only: r)
qed

lemma greeting_success_text:
  assumes "c_str s name = Inr nm" and "length nm + 8 \<le> INT_MAX" and "malloc_ok s 0"
  shows "\<exists>a s'. native_get_greeting name s = Inr (Ptr a, s') \<and>
                 c_str s' (Ptr a) = Inr (''Hello, '' @ nm @ ''!'')"
proof -
  let ?s' = "s\<lparr>heap := heap s @ [Some (Chars (map Some ((''Hello, '' @ nm @ ''!'') @ [NUL])))],
               mallocs := tl (mallocs s)\<rparr>"
  have "NUL \<notin> set nm"
    using assms(1) by (rule c_str_no_NUL)
  then have "NUL \<notin> set (''Hello, '' @ nm @ ''!'')"
    by simp
  moreover have "load ?s' (length (heap s)) =
                   Some (Chars (map Some ((''Hello, '' @ nm @ ''!'') @ [NUL])))"
    by (simp add: load_def)
  ultimately have "c_str ?s' (Ptr (length (heap s))) = Inr (''Hello, '' @ nm @ ''!'')"
    by (intro c_str_block)
  then show ?thesis
    using greeting_success [OF assms] by blast
qed

lemma greeting_failure:
  assumes "c_str s name = Inr nm" and "\<not> malloc_ok s 0"
  shows "native_get_greeting name s = Inr (NULL, s\<lparr>mallocs := tl (mallocs s)\<rparr>)"
proof -
  have "name \<noteq> NULL"
    using assms(1) by (rule c_str_not_NULL)
  moreover have "strlen name s = Inr (of_nat (length nm))"
    using assms(1) by (rule strlen_c_str)
  ultimately show ?thesis
    using assms(2) by (simp add: native_get_greeting_def strlen_Lit malloc_def)
qed

lemma greeting_nonnull:
  assumes name: "c_str s name = Inr nm" and ok: "malloc_ok s 0"
  shows "\<exists>a s'. native_get_greeting name s = Inr (Ptr a, s')"
proof -
  have nn: "name \<noteq> NULL"
    using name by (rule c_str_not_NULL)
  have l2: "strlen name s = Inr (of_nat (length nm))"
    using name by (rule strlen_c_str)
  define n :: size_t where "n = 9 + of_nat (length nm)"
  let ?s1 = "s\<lparr>heap := heap s @ [Some (Chars (replicate (unat n) None))],
               mallocs := tl (mallocs s)\<rparr>"
  have rd: "c_str ?s1 name = Inr nm"
    using name by (rule c_str_grow)
  have ld: "load ?s1 (length (heap s)) = Some (Chars (replicate (unat n) None))"
    by (simp add: load_def)
  have "\<exists>s'. snprintf_hello (Ptr (length (heap s))) n name ?s1 = Inr s'"
    using rd ld by (rule snprintf_hello_bounded) simp
  then obtain s' where "snprintf_hello (Ptr (length (heap s))) n name ?s1 = Inr s'" ..
  then show ?thesis
    using nn ok
    by (simp add: native_get_greeting_def strlen_Lit l2 malloc_def n_def)
qed

subsection \<open>native\_string\_length\<close>

lemma string_length_value:
  assumes "c_str s str = Inr cs"
  shows "native_string_length str s = Inr (of_nat (length cs))"
proof -
  have "str \<noteq> NULL"
    using assms by (rule c_str_not_NULL)
  then show ?thesis
    using assms by (simp add: native_string_length_def strlen_def ucast_of_nat_64_32)
qed

lemma long_world_c_str: "c_str (long_world n) (Ptr 0) = Inr (long_name n)"
proof -
  have "NUL \<notin> set (long_name n)"
    by (simp add: long_name_def)
  moreover have "load (long_world n) 0 = Some (Chars (map Some (long_name n @ [NUL])))"
    by (simp add: long_world_def mk_world_def load_def)
  ultimately show ?thesis
    by (intro c_str_block)
qed

lemma long_name_length: "length (long_name n) = n"
  by (simp add: long_name_def)

lemma long_name_no_NUL: "NUL \<notin> set (long_name n)"
  by (simp add: long_name_def)

lemma long_world_facts:
  "malloc_ok (long_world n) 0"
  "length (heap (long_world n)) = 1"
  "snprintf_overflow (long_world n) = stop_at_overflow"
  by (simp_all add: malloc_ok_def long_world_def mk_world_def)

subsection \<open>native\_sum\_array\<close>

lemma sum_loop_value:
  assumes "load s a = Some (Ints xs)"
    and "0 \<le> sint i" and "sint i \<le> sint len" and "nat (sint len) \<le> length xs"
  shows "sum_loop (Ptr a) len s i acc =
           Inr (acc + sum_list (drop (nat (sint i)) (take (nat (sint len)) xs)))"
  using assms
proof (induction "Ptr a" len s i acc rule: sum_loop.induct)
  case (1 len s i acc)
  show ?case
  proof (cases "i <s len")
    case False
    with "1.prems" have "sint i = sint len"
      by (simp add: word_sless_alt)
    then show ?thesis
      using False by (subst sum_loop.simps) simp
  next
    case True
    then have lt: "sint i < sint len"
      by (simp add: word_sless_alt)
    have nx: "sint (i + 1) = sint i + 1"
      using True by (rule sint_succ_below)
    have ix: "index_int (Ptr a) i s = Inr (xs ! nat (sint i))"
      using "1.prems" lt by (simp add: index_int_def)
    have "sum_loop (Ptr a) len s (i + 1) (acc + xs ! nat (sint i)) =
            Inr (acc + xs ! nat (sint i) +
                 sum_list (drop (nat (sint (i + 1))) (take (nat (sint len)) xs)))"
      using True ix "1.prems" lt nx by (intro "1.hyps") simp_all
    moreover have "drop (nat (sint i)) (take (nat (sint len)) xs) =
                   xs ! nat (sint i) # drop (nat (sint (i + 1))) (take (nat (sint len)) xs)"
    proof -
      have "nat (sint i) < length (take (nat (sint len)) xs)"
        using "1.prems" lt by simp
      then have "drop (nat (sint i)) (take (nat (sint len)) xs) =
                 take (nat (sint len)) xs ! nat (sint i) #
                 drop (Suc (nat (sint i))) (take (nat (sint len)) xs)"
        by (rule Cons_nth_drop_Suc [symmetric])
      moreover have "Suc (nat (sint i)) = nat (sint (i + 1))"
        using "1.prems" nx by simp
      moreover have "take (nat (sint len)) xs ! nat (sint i) = xs ! nat (sint i)"
        using "1.prems" lt by simp
      ultimately show ?thesis by simp
    qed
    ultimately show ?thesis
      using True ix by (subst sum_loop.simps) (simp add: add.assoc)
  qed
qed

lemma sum_array_value:
  assumes "load s a = Some (Ints xs)" and "0 < sint len" and "nat (sint len) \<le> length xs"
  shows "native_sum_array (Ptr a) len s = Inr (sum_list (take (nat (sint len)) xs))"
proof -
  have "\<not> len \<le>s 0"
    using assms(2) by (simp add: word_sle_eq)
  moreover have "sum_loop (Ptr a) len s 0 0 =
                 Inr (0 + sum_list (drop (nat (sint (0::int32_t))) (take (nat (sint len)) xs)))"
    using assms by (intro sum_loop_value) simp_all
  ultimately show ?thesis
    by (simp add: native_sum_array_def)
qed

lemma ints_world_load: "load (ints_world xs) 0 = Some (Ints xs)"
  by (simp add: ints_world_def mk_world_def load_def)

subsection \<open>native\_get\_system\_info\<close>

lemma info_record_fails:
  assumes "\<not> malloc_ok s 0"
  shows "native_get_system_info s = Inr (NULL, s\<lparr>mallocs := tl (mallocs s)\<rparr>)"
  using assms by (simp add: native_get_system_info_def malloc_def)

lemma info_platform_fails:
  assumes "malloc_ok s 0" and "\<not> malloc_ok s 1"
  shows "native_get_system_info s = Inl Null_write"
proof -
  obtain rest where m: "mallocs s = True # rest"
    using assms(1) by (auto simp: malloc_ok_0)
  have r: "\<not> malloc_ok
             (s\<lparr>heap := heap s @
                          [Some (Info \<lparr>platform = None, version = None, timestamp = None\<rparr>)],
                mallocs := rest\<rparr>) 0"
    using assms(2) m by (simp add: malloc_ok_def)
  show ?thesis
    using assms(1) m r
    by (simp add: native_get_system_info_def malloc_def strcpy_def c_str_Lit write_chars_def write_cells_def)
qed

lemma info_version_fails:
  assumes "malloc_ok s 0" and "malloc_ok s 1" and "\<not> malloc_ok s 2"
  shows "native_get_system_info s = Inl Null_write"
proof -
  obtain rest where m: "mallocs s = True # True # rest"
    using assms(1,2) by (rule malloc_ok_two)
  have r: "rest = [] \<or> (\<exists>rest'. rest = False # rest')"
    using assms(3) m by (cases rest) (auto simp: malloc_ok_def)
  show ?thesis
    using m r
    by (auto simp add: native_get_system_info_def malloc_def malloc_ok_def strcpy_def c_str_Lit
        write_chars_def write_cells_def load_def store_def set_field_def nth_append)
qed

lemma info_success:
  assumes "malloc_ok s 0" and "malloc_ok s 1" and "malloc_ok s 2"
  shows "native_get_system_info s =
           Inr (Ptr (length (heap s)),
                s\<lparr>heap := heap s @
                     [Some (Info \<lparr>platform = Some (Ptr (length (heap s) + 1)),
                                  version = Some (Ptr (length (heap s) + 2)),
                                  timestamp = Some (clock s)\<rparr>),
                      Some (Chars (map Some (''iOS'' @ [NUL]))),
                      Some (Chars (map Some (''1.0.0'' @ [NUL])))],
                   mallocs := drop 3 (mallocs s)\<rparr>)"
proof -
  obtain rest where m: "mallocs s = True # True # True # rest"
    using assms by (rule malloc_ok_three)
  show ?thesis
    using m
    by (simp add: native_get_system_info_def malloc_def malloc_ok_def strcpy_def c_str_Lit
        write_chars_def write_cells_def load_def store_def set_field_def nth_append time_def list_update_append)
qed

lemma info_returned_cases:
  assumes "native_get_system_info s = Inr (p, s')" and "p \<noteq> NULL"
  shows "malloc_ok s 0 \<and> malloc_ok s 1 \<and> malloc_ok s 2"
proof -
  have a: "malloc_ok s 0"
    using assms info_record_fails [of s] by auto
  have b: "malloc_ok s 1"
    using assms a info_platform_fails [of s] by auto
  have c: "malloc_ok s 2"
    using assms a b info_version_fails [of s] by auto
  from a b c show ?thesis by simp
qed

subsection \<open>The two release functions\<close>

lemma free_Ptr_live:
  "load s a = Some ob \<Longrightarrow>
   free (Ptr a) s = Inr (s\<lparr>heap := (heap s)[a := None], released := released s @ [a]\<rparr>)"
  by (simp add: free_def)

lemma free_field:
  "releasable s p \<Longrightarrow>
   (if p \<noteq> NULL then free p s else Inr s) =
     Inr (s\<lparr>heap := release_all (addrs p) (heap s), released := released s @ addrs p\<rparr>)"
  by (cases p) (auto simp: releasable_def free_def addrs_def release_all_def)

lemma free_info_record:
  assumes rec: "load s a = Some (Info r)"
    and fields: "platform r = Some p" "version r = Some v"
    and live: "releasable s p" "releasable s v"
    and dist: "distinct (addrs p @ addrs v @ [a])"
  shows "native_free_system_info (Ptr a) s =
           Inr (s\<lparr>heap := release_all (addrs p @ addrs v @ [a]) (heap s),
                  released := released s @ addrs p @ addrs v @ [a]\<rparr>)"
proof -
  let ?s1 = "s\<lparr>heap := release_all (addrs p) (heap s), released := released s @ addrs p\<rparr>"
  let ?s2 = "?s1\<lparr>heap := release_all (addrs v) (heap ?s1),
                released := released ?s1 @ addrs v\<rparr>"
  have f1: "(if p \<noteq> NULL then free p s else Inr s) = Inr ?s1"
    using live(1) by (rule free_field)
  have rec1: "load ?s1 a = Some (Info r)"
    using rec dist
    by (cases p) (auto simp: load_def addrs_def release_all_def split: if_splits)
  have live1: "releasable ?s1 v"
    using live(2) dist
    by (cases p; cases v)
       (auto simp: releasable_def load_def addrs_def release_all_def split: if_splits)
  have f2: "(if v \<noteq> NULL then free v ?s1 else Inr ?s1) = Inr ?s2"
    using live1 by (rule free_field)
  have rec2: "load ?s2 a = Some (Info r)"
    using rec1 dist
    by (cases v) (auto simp: load_def addrs_def release_all_def split: if_splits)
  have f3: "free (Ptr a) ?s2 =
            Inr (?s2\<lparr>heap := (heap ?s2)[a := None], released := released ?s2 @ [a]\<rparr>)"
    using rec2 by (rule free_Ptr_live)
  have g1: "get_field (Ptr a) platform s = Inr p"
    using rec fields by (simp add: get_field_def)
  have g2: "get_field (Ptr a) version ?s1 = Inr v"
    using rec1 fields by (simp add: get_field_def)
  have "native_free_system_info (Ptr a) s = free (Ptr a) ?s2"
    by (simp only: native_free_system_info_def g1 g2 f1 f2 bind_r_simps ptr.simps simp_thms
        if_True)
  also note f3
  finally show ?thesis
    by (simp add: release_all_def)
qed

section \<open>Integer addition\<close>

text \<open>
  C2. For every pair of 32-bit signed integers \<open>a\<close> and \<open>b\<close>, \<open>native_add a b\<close> is
  \<open>(a + b) mod 2^32\<close> read as a signed 32-bit integer: the signed value of the result
  is the mathematical sum of the signed values, moved into the range
  \<open>-2^31 .. 2^31 - 1\<close> by a multiple of \<open>2^32\<close>. The function returns a plain integer
  for every input; it has no error result.
\<close>

theorem native_add_wraps:
  "sint (native_add a b) = (sint a + sint b + 2 ^ 31) mod 2 ^ 32 - 2 ^ 31"
  by (simp add: native_add_def sint_word_ariths signed_take_bit_eq_take_bit_shift take_bit_eq_mod)

section \<open>System information: allocation failure\<close>

text \<open>
  C1. \<open>native_get_system_info\<close> returns \<open>NULL\<close> if and only if the first allocation,
  the one of the record, fails. The results of the two later allocations, for the
  platform and the version string, are not checked before \<^verbatim>\<open>strcpy\<close> writes through
  them: when the record is allocated and the platform buffer is not, or when both are
  and the version buffer is not, the run reaches a write whose destination is \<open>NULL\<close>
  (the fault \<open>Null_write\<close>) instead of returning.
\<close>

theorem native_get_system_info_null_iff:
  "((\<exists>s'. native_get_system_info s = Inr (NULL, s')) \<longleftrightarrow> \<not> malloc_ok s 0) \<and>
   (malloc_ok s 0 \<and> \<not> malloc_ok s 1 \<longrightarrow> native_get_system_info s = Inl Null_write) \<and>
   (malloc_ok s 0 \<and> malloc_ok s 1 \<and> \<not> malloc_ok s 2 \<longrightarrow>
      native_get_system_info s = Inl Null_write)"
proof (intro conjI impI iffI)
  assume "\<exists>s'. native_get_system_info s = Inr (NULL, s')"
  then obtain s' where ret: "native_get_system_info s = Inr (NULL, s')" ..
  show "\<not> malloc_ok s 0"
  proof
    assume a: "malloc_ok s 0"
    show False
    proof (cases "malloc_ok s 1")
      case False
      with a ret show False
        by (simp add: info_platform_fails)
    next
      case b: True
      show False
      proof (cases "malloc_ok s 2")
        case False
        with a b ret show False
          by (simp add: info_version_fails)
      next
        case True
        with a b ret show False
          by (simp add: info_success)
      qed
    qed
  qed
next
  assume "\<not> malloc_ok s 0"
  then show "\<exists>s'. native_get_system_info s = Inr (NULL, s')"
    by (simp add: info_record_fails)
next
  assume "malloc_ok s 0 \<and> \<not> malloc_ok s 1"
  then show "native_get_system_info s = Inl Null_write"
    by (simp add: info_platform_fails)
next
  assume "malloc_ok s 0 \<and> malloc_ok s 1 \<and> \<not> malloc_ok s 2"
  then show "native_get_system_info s = Inl Null_write"
    by (simp add: info_version_fails)
qed

theorem native_get_system_info_null_iff_witness:
  "\<not> malloc_ok (mk_world [] [False]) 0 \<and>
   (\<exists>s'. native_get_system_info (mk_world [] [False]) = Inr (NULL, s')) \<and>
   malloc_ok (mk_world [] [True, False]) 0 \<and> \<not> malloc_ok (mk_world [] [True, False]) 1 \<and>
   native_get_system_info (mk_world [] [True, False]) = Inl Null_write \<and>
   malloc_ok (mk_world [] [True, True, False]) 0 \<and>
   malloc_ok (mk_world [] [True, True, False]) 1 \<and>
   \<not> malloc_ok (mk_world [] [True, True, False]) 2 \<and>
   native_get_system_info (mk_world [] [True, True, False]) = Inl Null_write"
  using native_get_system_info_null_iff [of "mk_world [] [False]"]
    native_get_system_info_null_iff [of "mk_world [] [True, False]"]
    native_get_system_info_null_iff [of "mk_world [] [True, True, False]"]
  by (simp add: malloc_ok_def mk_world_def)

section \<open>Array sum\<close>

text \<open>
  C3, as the code has it. \<open>native_sum_array\<close> returns 0 whenever the array pointer is
  \<open>NULL\<close> or the length is zero or negative. Otherwise, for an array holding at least
  \<open>len\<close> elements, it returns the arithmetic sum of the first \<open>len\<close> elements provided
  that this sum lies in the range of \<^verbatim>\<open>int32_t\<close>; for instance the sum of \<open>[1, 2, 3]\<close>
  with length 3 is 6.
\<close>

theorem native_sum_array_sum:
  "(array = NULL \<or> sint len \<le> 0 \<longrightarrow> native_sum_array array len s = Inr 0) \<and>
   (load s a = Some (Ints xs) \<and> 0 < sint len \<and> nat (sint len) \<le> length xs \<and>
    - (2 ^ 31) \<le> sum_list (map sint (take (nat (sint len)) xs)) \<and>
    sum_list (map sint (take (nat (sint len)) xs)) < 2 ^ 31 \<longrightarrow>
      (\<exists>r. native_sum_array (Ptr a) len s = Inr r \<and>
           sint r = sum_list (map sint (take (nat (sint len)) xs))))"
proof (intro conjI impI)
  assume "array = NULL \<or> sint len \<le> 0"
  then show "native_sum_array array len s = Inr 0"
    by (auto simp: native_sum_array_def word_sle_eq)
next
  let ?S = "sum_list (map sint (take (nat (sint len)) xs))"
  assume h: "load s a = Some (Ints xs) \<and> 0 < sint len \<and> nat (sint len) \<le> length xs \<and>
             - (2 ^ 31) \<le> ?S \<and> ?S < 2 ^ 31"
  then have "native_sum_array (Ptr a) len s = Inr (sum_list (take (nat (sint len)) xs))"
    by (simp add: sum_array_value)
  moreover have "sint (sum_list (take (nat (sint len)) xs)) = (?S + 2 ^ 31) mod 2 ^ 32 - 2 ^ 31"
    by (rule sint_sum_list)
  moreover have "(?S + 2 ^ 31) mod 2 ^ 32 = ?S + 2 ^ 31"
    using h by (intro mod_pos_pos_trivial) simp_all
  ultimately show "\<exists>r. native_sum_array (Ptr a) len s = Inr r \<and> sint r = ?S"
    by simp
qed

theorem native_sum_array_sum_witness:
  "native_sum_array NULL 7 (ints_world [1, 2, 3]) = Inr 0 \<and>
   native_sum_array (Ptr 0) 0 (ints_world [1, 2, 3]) = Inr 0 \<and>
   sint (- 1 :: int32_t) \<le> 0 \<and>
   native_sum_array (Ptr 0) (- 1) (ints_world [1, 2, 3]) = Inr 0 \<and>
   load (ints_world [1, 2, 3]) 0 = Some (Ints [1, 2, 3]) \<and>
   (\<exists>r. native_sum_array (Ptr 0) 3 (ints_world [1, 2, 3]) = Inr r \<and> sint r = 6)"
  using native_sum_array_sum [of NULL 7 "ints_world [1, 2, 3]" 0 "[]"]
    native_sum_array_sum [of "Ptr 0" 0 "ints_world [1, 2, 3]" 0 "[]"]
    native_sum_array_sum [of "Ptr 0" "- 1" "ints_world [1, 2, 3]" 0 "[]"]
    native_sum_array_sum [of "Ptr 0" 3 "ints_world [1, 2, 3]" 0 "[1, 2, 3]"]
  by (simp add: ints_world_load)

text \<open>
  C3, as it is written, promises the arithmetic sum for every array. The array
  \<open>[2147483647, 1]\<close> has the arithmetic sum 2147483648, and the function returns
  -2147483648.
\<close>

theorem native_sum_array_sum_counterexample:
  "native_sum_array (Ptr 0) 2 (ints_world [2147483647, 1]) = Inr (- 2147483648) \<and>
   sint (- 2147483648 :: int32_t) \<noteq> sint (2147483647 :: int32_t) + sint (1 :: int32_t)"
proof -
  have "native_sum_array (Ptr 0) 2 (ints_world [2147483647, 1]) =
          Inr (sum_list (take (nat (sint (2 :: int32_t))) [2147483647, 1]))"
    by (rule sum_array_value) (simp_all add: ints_world_load)
  then show ?thesis
    by simp
qed

text \<open>
  C9. The loop adds with 32-bit wrap-around: for a non-null array of at least \<open>len\<close>
  elements and \<open>len > 0\<close>, the signed value of the result is the mathematical sum of
  the first \<open>len\<close> elements reduced modulo \<open>2^32\<close> into the range of \<^verbatim>\<open>int32_t\<close>. This
  holds for every such array, so also for those whose mathematical sum is outside that
  range: the call returns a value for them as for the others, and the value is the
  reduced sum.
\<close>

theorem native_sum_array_wraps:
  assumes "load s a = Some (Ints xs)" and "0 < sint len" and "nat (sint len) \<le> length xs"
  shows "\<exists>r. native_sum_array (Ptr a) len s = Inr r \<and>
             sint r = (sum_list (map sint (take (nat (sint len)) xs)) + 2 ^ 31) mod 2 ^ 32 - 2 ^ 31"
  using assms by (simp add: sum_array_value sint_sum_list)

theorem native_sum_array_wraps_witness:
  "load (ints_world [2147483647, 2147483647, 5]) 0 = Some (Ints [2147483647, 2147483647, 5]) \<and>
   0 < sint (3 :: int32_t) \<and>
   sum_list (map sint [2147483647, 2147483647, 5 :: int32_t]) = 4294967299 \<and>
   (\<exists>r. native_sum_array (Ptr 0) 3 (ints_world [2147483647, 2147483647, 5]) = Inr r \<and>
        sint r = 3)"
  using native_sum_array_wraps [of "ints_world [2147483647, 2147483647, 5]" 0
      "[2147483647, 2147483647, 5]" 3]
  by (simp add: ints_world_load)

section \<open>Greeting\<close>

text \<open>
  C4, as the code has it. When the allocation succeeds, \<open>native_get_greeting NULL\<close>
  returns a pointer to exactly the string \<open>Hello, World!\<close>, and for every non-null
  \<open>name\<close> pointing to a string \<open>nm\<close> of fewer than \<open>2^31 - 8\<close> bytes it returns a pointer
  to exactly \<open>Hello, \<close> followed by \<open>nm\<close> and \<open>!\<close>; for \<open>Ada\<close> this is \<open>Hello, Ada!\<close>.
  The bound says that the greeting has at most \<^verbatim>\<open>INT_MAX\<close> characters, which is what
  \<^verbatim>\<open>snprintf\<close> can print.
\<close>

theorem native_get_greeting_text:
  assumes "malloc_ok s 0"
  shows "(\<exists>a s'. native_get_greeting NULL s = Inr (Ptr a, s') \<and>
                  c_str s' (Ptr a) = Inr ''Hello, World!'') \<and>
         (c_str s name = Inr nm \<and> length nm < 2 ^ 31 - 8 \<longrightarrow>
            (\<exists>a s'. native_get_greeting name s = Inr (Ptr a, s') \<and>
                     c_str s' (Ptr a) = Inr (''Hello, '' @ nm @ ''!'')))"
proof (intro conjI impI)
  have "c_str s (Lit ''World'') = Inr ''World''"
    by (simp add: c_str_Lit)
  then have "\<exists>a s'. native_get_greeting (Lit ''World'') s = Inr (Ptr a, s') \<and>
                     c_str s' (Ptr a) = Inr (''Hello, '' @ ''World'' @ ''!'')"
    using assms by (intro greeting_success_text) simp_all
  then show "\<exists>a s'. native_get_greeting NULL s = Inr (Ptr a, s') \<and>
                     c_str s' (Ptr a) = Inr ''Hello, World!''"
    by (simp add: greeting_NULL)
next
  assume "c_str s name = Inr nm \<and> length nm < 2 ^ 31 - 8"
  then show "\<exists>a s'. native_get_greeting name s = Inr (Ptr a, s') \<and>
                     c_str s' (Ptr a) = Inr (''Hello, '' @ nm @ ''!'')"
    using assms by (intro greeting_success_text) simp_all
qed

theorem native_get_greeting_text_witness:
  "malloc_ok ada_world 0 \<and> c_str ada_world (Ptr 0) = Inr ''Ada'' \<and>
   (\<exists>a s'. native_get_greeting NULL ada_world = Inr (Ptr a, s') \<and>
            c_str s' (Ptr a) = Inr ''Hello, World!'') \<and>
   (\<exists>a s'. native_get_greeting (Ptr 0) ada_world = Inr (Ptr a, s') \<and>
            c_str s' (Ptr a) = Inr ''Hello, Ada!'')"
proof -
  have ok: "malloc_ok ada_world 0"
    by (simp add: malloc_ok_def ada_world_def mk_world_def)
  have ada: "c_str ada_world (Ptr 0) = Inr ''Ada''"
    by (simp add: c_str_def load_def ada_world_def mk_world_def)
  show ?thesis
    using ok ada native_get_greeting_text [OF ok, of "Ptr 0" "''Ada''"] by simp
qed

text \<open>
  C4, as it is written, promises the text for every name. For a name of
  \<open>2^31 - 7 = 2147483641\<close> letters the text has 2147483649 characters, more than
  \<^verbatim>\<open>INT_MAX\<close>. With an implementation of \<^verbatim>\<open>snprintf\<close> that stops after the conversion
  that takes the count beyond \<^verbatim>\<open>INT_MAX\<close>, the allocation succeeds and the string
  returned is \<open>Hello, \<close> followed by the name, without the \<open>!\<close>.
\<close>

theorem native_get_greeting_text_counterexample:
  "malloc_ok (long_world 2147483641) 0 \<and>
   c_str (long_world 2147483641) (Ptr 0) = Inr (long_name 2147483641) \<and>
   native_get_greeting (Ptr 0) (long_world 2147483641) = Inr (Ptr 1, long_cut 2147483641) \<and>
   c_str (long_cut 2147483641) (Ptr 1) = Inr (''Hello, '' @ long_name 2147483641) \<and>
   ''Hello, '' @ long_name 2147483641 \<noteq> ''Hello, '' @ long_name 2147483641 @ ''!''"
proof -
  let ?n = "2147483641 :: nat"
  have name: "c_str (long_world ?n) (Ptr 0) = Inr (long_name ?n)"
    by (rule long_world_c_str)
  have ok: "malloc_ok (long_world ?n) 0"
    by (rule long_world_facts)
  have impl: "snprintf_overflow (long_world ?n) = stop_at_overflow"
    by (rule long_world_facts)
  have hp: "length (heap (long_world ?n)) = 1"
    by (rule long_world_facts)
  have big: "INT_MAX < length (long_name ?n) + 7"
    by (simp add: long_name_length)
  have fits: "length (long_name ?n) + 9 < 2 ^ 64"
    by (simp add: long_name_length)
  have g: "native_get_greeting (Ptr 0) (long_world ?n) = Inr (Ptr 1, long_cut ?n)"
    using greeting_cut [OF name big fits ok impl] by (simp only: hp long_cut_def)
  have "NUL \<notin> set (''Hello, '' @ long_name ?n)"
    by (simp add: long_name_no_NUL)
  moreover have "load (long_cut ?n) 1 =
                   Some (Chars (map Some ((''Hello, '' @ long_name ?n) @ [NUL]) @ [None]))"
    by (simp add: long_cut_def load_def hp nth_append)
  ultimately have t: "c_str (long_cut ?n) (Ptr 1) = Inr (''Hello, '' @ long_name ?n)"
    by (intro c_str_block_rest)
  from ok name g t show ?thesis
    by simp
qed

text \<open>
  C5. \<open>native_get_greeting\<close> returns \<open>NULL\<close> only if the allocation fails. For every
  input that is \<open>NULL\<close> or points to a string: if the allocation of the result buffer
  succeeds, a non-null pointer is returned, and if it fails the call returns \<open>NULL\<close>
  and nothing else happens (the heap and the log of released blocks are those of the
  world before the call; no fault is raised).
\<close>

theorem native_get_greeting_null_iff:
  assumes "name = NULL \<or> c_str s name = Inr nm"
  shows "(malloc_ok s 0 \<longrightarrow> (\<exists>a s'. native_get_greeting name s = Inr (Ptr a, s'))) \<and>
         (\<not> malloc_ok s 0 \<longrightarrow>
            native_get_greeting name s = Inr (NULL, s\<lparr>mallocs := tl (mallocs s)\<rparr>))"
proof -
  have w: "c_str s (Lit ''World'') = Inr ''World''"
    by (simp add: c_str_Lit)
  from assms show ?thesis
  proof
    assume "name = NULL"
    then show ?thesis
      using greeting_nonnull [OF w] greeting_failure [OF w]
      by (simp add: greeting_NULL)
  next
    assume "c_str s name = Inr nm"
    then show ?thesis
      using greeting_nonnull greeting_failure by simp
  qed
qed

theorem native_get_greeting_null_iff_witness:
  "c_str ada_world (Ptr 0) = Inr ''Ada'' \<and> malloc_ok ada_world 0 \<and>
   (\<exists>a s'. native_get_greeting (Ptr 0) ada_world = Inr (Ptr a, s')) \<and>
   \<not> malloc_ok (mk_world [] [False]) 0 \<and>
   native_get_greeting NULL (mk_world [] [False]) = Inr (NULL, mk_world [] [])"
proof -
  have ada: "c_str ada_world (Ptr 0) = Inr ''Ada''"
    by (simp add: c_str_def load_def ada_world_def mk_world_def)
  have ok: "malloc_ok ada_world 0"
    by (simp add: malloc_ok_def ada_world_def mk_world_def)
  have no: "\<not> malloc_ok (mk_world [] [False]) 0"
    by (simp add: malloc_ok_def mk_world_def)
  have "(mk_world [] [False])\<lparr>mallocs := tl (mallocs (mk_world [] [False]))\<rparr> = mk_world [] []"
    by (simp add: mk_world_def)
  then show ?thesis
    using ada ok no
      native_get_greeting_null_iff [of "Ptr 0" ada_world "''Ada''"]
      native_get_greeting_null_iff [of NULL "mk_world [] [False]" "[]"]
    by simp
qed

section \<open>String length\<close>

text \<open>
  C6, as the code has it. \<open>native_string_length NULL\<close> is 0. For a non-null pointer to
  a terminated string the function never fails: it returns the number of bytes before
  the terminator, cut to its low 32 bits by the cast to \<^verbatim>\<open>int32_t\<close>. For every string of
  fewer than \<open>2^31\<close> bytes that is the byte length itself.
\<close>

theorem native_string_length_value:
  "native_string_length NULL s = Inr 0 \<and>
   (c_str s str = Inr cs \<longrightarrow>
      native_string_length str s = Inr (of_nat (length cs)) \<and>
      (length cs < 2 ^ 31 \<longrightarrow> sint (of_nat (length cs) :: int32_t) = int (length cs)))"
proof (intro conjI impI)
  show "native_string_length NULL s = Inr 0"
    by (simp add: native_string_length_def)
next
  assume "c_str s str = Inr cs"
  then show "native_string_length str s = Inr (of_nat (length cs))"
    by (rule string_length_value)
next
  assume "length cs < 2 ^ 31"
  then show "sint (of_nat (length cs) :: int32_t) = int (length cs)"
    by (rule sint_of_nat_small)
qed

theorem native_string_length_value_witness:
  "c_str ada_world (Ptr 0) = Inr ''Ada'' \<and>
   native_string_length (Ptr 0) ada_world = Inr 3 \<and> sint (3 :: int32_t) = 3"
proof -
  have ada: "c_str ada_world (Ptr 0) = Inr ''Ada''"
    by (simp add: c_str_def load_def ada_world_def mk_world_def)
  show ?thesis
    using ada native_string_length_value [of ada_world "Ptr 0" "''Ada''"] by simp
qed

text \<open>
  C6, as it is written, promises the byte length for every string. A string of
  \<open>2^31 = 2147483648\<close> letters has that many bytes before its terminator, and the
  function returns -2147483648.
\<close>

theorem native_string_length_counterexample:
  "c_str (long_world 2147483648) (Ptr 0) = Inr (long_name 2147483648) \<and>
   native_string_length (Ptr 0) (long_world 2147483648) = Inr (- 2147483648) \<and>
   sint (- 2147483648 :: int32_t) \<noteq> int (length (long_name 2147483648))"
proof -
  have "native_string_length (Ptr 0) (long_world 2147483648) =
          Inr (of_nat (length (long_name 2147483648)))"
    using long_world_c_str by (rule string_length_value)
  then show ?thesis
    by (simp add: long_world_c_str long_name_length)
qed

section \<open>The length of a greeting\<close>

text \<open>
  C10, as the code has it. When the allocation succeeds, the length of the greeting
  for \<open>NULL\<close> is 13, and for every non-null \<open>name\<close> of fewer than \<open>2^31 - 8\<close> bytes the
  length of its greeting is the length of \<open>name\<close> plus 8.
\<close>

theorem greeting_length_roundtrip:
  assumes "malloc_ok s 0"
  shows "(\<exists>a s'. native_get_greeting NULL s = Inr (Ptr a, s') \<and>
                  native_string_length (Ptr a) s' = Inr 13) \<and>
         (c_str s name = Inr nm \<and> length nm < 2 ^ 31 - 8 \<longrightarrow>
            (\<exists>a s' w w'. native_get_greeting name s = Inr (Ptr a, s') \<and>
                          native_string_length name s = Inr w \<and>
                          native_string_length (Ptr a) s' = Inr w' \<and>
                          sint w' = sint w + 8))"
proof (intro conjI impI)
  have "c_str s (Lit ''World'') = Inr ''World''"
    by (simp add: c_str_Lit)
  then have "\<exists>a s'. native_get_greeting (Lit ''World'') s = Inr (Ptr a, s') \<and>
                     c_str s' (Ptr a) = Inr (''Hello, '' @ ''World'' @ ''!'')"
    using assms by (intro greeting_success_text) simp_all
  then obtain a s' where "native_get_greeting NULL s = Inr (Ptr a, s')"
    and "c_str s' (Ptr a) = Inr ''Hello, World!''"
    by (auto simp: greeting_NULL)
  then show "\<exists>a s'. native_get_greeting NULL s = Inr (Ptr a, s') \<and>
                     native_string_length (Ptr a) s' = Inr 13"
    using string_length_value [of s' "Ptr a" "''Hello, World!''"] by simp
next
  assume h: "c_str s name = Inr nm \<and> length nm < 2 ^ 31 - 8"
  then have "\<exists>a s'. native_get_greeting name s = Inr (Ptr a, s') \<and>
                     c_str s' (Ptr a) = Inr (''Hello, '' @ nm @ ''!'')"
    using assms by (intro greeting_success_text) simp_all
  then obtain a s' where g: "native_get_greeting name s = Inr (Ptr a, s')"
    and t: "c_str s' (Ptr a) = Inr (''Hello, '' @ nm @ ''!'')"
    by auto
  have w: "native_string_length name s = Inr (of_nat (length nm))"
    using h by (simp add: string_length_value)
  have "native_string_length (Ptr a) s' = Inr (of_nat (length (''Hello, '' @ nm @ ''!'')))"
    using t by (rule string_length_value)
  then have w': "native_string_length (Ptr a) s' = Inr (of_nat (length nm) + 8)"
    by simp
  have "sint (of_nat (length nm) + 8 :: int32_t) = sint (of_nat (length nm) :: int32_t) + 8"
  proof -
    have "(of_nat (length nm) + 8 :: int32_t) = of_nat (length nm + 8)"
      by simp
    moreover have "sint (of_nat (length nm + 8) :: int32_t) = int (length nm + 8)"
      using h by (intro sint_of_nat_small) simp
    moreover have "sint (of_nat (length nm) :: int32_t) = int (length nm)"
      using h by (intro sint_of_nat_small) simp
    ultimately show ?thesis
      by simp
  qed
  with g w w' show "\<exists>a s' w w'. native_get_greeting name s = Inr (Ptr a, s') \<and>
                          native_string_length name s = Inr w \<and>
                          native_string_length (Ptr a) s' = Inr w' \<and>
                          sint w' = sint w + 8"
    by blast
qed

theorem greeting_length_roundtrip_witness:
  "malloc_ok ada_world 0 \<and> c_str ada_world (Ptr 0) = Inr ''Ada'' \<and>
   (\<exists>a s'. native_get_greeting NULL ada_world = Inr (Ptr a, s') \<and>
            native_string_length (Ptr a) s' = Inr 13) \<and>
   (\<exists>a s' w w'. native_get_greeting (Ptr 0) ada_world = Inr (Ptr a, s') \<and>
                 native_string_length (Ptr 0) ada_world = Inr w \<and>
                 native_string_length (Ptr a) s' = Inr w' \<and>
                 sint w' = sint w + 8)"
proof -
  have ok: "malloc_ok ada_world 0"
    by (simp add: malloc_ok_def ada_world_def mk_world_def)
  have ada: "c_str ada_world (Ptr 0) = Inr ''Ada''"
    by (simp add: c_str_def load_def ada_world_def mk_world_def)
  show ?thesis
    using ok ada greeting_length_roundtrip [OF ok, of "Ptr 0" "''Ada''"] by simp
qed

text \<open>
  C10, as it is written, promises the sum of the two integers for every name. For a
  name of \<open>2^31 - 8 = 2147483640\<close> letters the length of the name is 2147483640 and
  the sum would be 2147483648, which no \<^verbatim>\<open>int32_t\<close> is. With an implementation of
  \<^verbatim>\<open>snprintf\<close> that still prints the whole text here, the greeting has 2147483648
  bytes, and its length is returned as -2147483648.
\<close>

theorem greeting_length_roundtrip_counterexample:
  "native_string_length (Ptr 0) (long_world 2147483640) = Inr 2147483640 \<and>
   native_get_greeting (Ptr 0) (long_world 2147483640) = Inr (Ptr 1, long_greeted 2147483640) \<and>
   native_string_length (Ptr 1) (long_greeted 2147483640) = Inr (- 2147483648) \<and>
   sint (- 2147483648 :: int32_t) \<noteq> sint (2147483640 :: int32_t) + 8"
proof -
  let ?n = "2147483640 :: nat"
  have name: "c_str (long_world ?n) (Ptr 0) = Inr (long_name ?n)"
    by (rule long_world_c_str)
  have ok: "malloc_ok (long_world ?n) 0"
    by (rule long_world_facts)
  have impl: "snprintf_overflow (long_world ?n) = stop_at_overflow"
    by (rule long_world_facts)
  have limit: "length (long_name ?n) + 7 = INT_MAX"
    by (simp add: long_name_length)
  have hp: "length (heap (long_world ?n)) = 1"
    by (rule long_world_facts)
  have g: "native_get_greeting (Ptr 0) (long_world ?n) = Inr (Ptr 1, long_greeted ?n)"
    using greeting_full_at_limit [OF name limit ok impl] by (simp only: hp long_greeted_def)
  have "NUL \<notin> set (''Hello, '' @ long_name ?n @ ''!'')"
    by (simp add: long_name_no_NUL)
  moreover have "load (long_greeted ?n) 1 =
                   Some (Chars (map Some ((''Hello, '' @ long_name ?n @ ''!'') @ [NUL])))"
    by (simp add: long_greeted_def load_def hp nth_append)
  ultimately have "c_str (long_greeted ?n) (Ptr 1) = Inr (''Hello, '' @ long_name ?n @ ''!'')"
    by (intro c_str_block)
  then have "native_string_length (Ptr 1) (long_greeted ?n) =
               Inr (of_nat (length (''Hello, '' @ long_name ?n @ ''!'')))"
    by (rule string_length_value)
  then have l2: "native_string_length (Ptr 1) (long_greeted ?n) = Inr (- 2147483648)"
    by (simp add: long_name_length)
  have "native_string_length (Ptr 0) (long_world ?n) = Inr (of_nat (length (long_name ?n)))"
    using name by (rule string_length_value)
  then have l1: "native_string_length (Ptr 0) (long_world ?n) = Inr 2147483640"
    by (simp add: long_name_length)
  from l1 g l2 show ?thesis
    by simp
qed

section \<open>System information: content\<close>

text \<open>
  C7. A call of \<open>native_get_system_info\<close> whose three allocations succeed returns a
  non-null pointer, and every call that returns a non-null pointer returns a record
  whose platform field points to the string \<open>iOS\<close> and whose version field points to
  the string \<open>1.0.0\<close>. Both are constants of the function, not empty, and do not
  depend on the world the call starts from, so that repeated calls return the same
  strings. The timestamp field holds what \<^verbatim>\<open>time(NULL)\<close> returns during the call, which
  is the wall clock of the world in seconds: the two differ by 0, within any tolerance.
\<close>

theorem native_get_system_info_content:
  "(malloc_ok s 0 \<and> malloc_ok s 1 \<and> malloc_ok s 2 \<longrightarrow>
      (\<exists>a s'. native_get_system_info s = Inr (Ptr a, s'))) \<and>
   (native_get_system_info s = Inr (p, s') \<and> p \<noteq> NULL \<longrightarrow>
      info_text p platform s' = Inr ''iOS'' \<and>
      info_text p version s' = Inr ''1.0.0'' \<and>
      get_field p timestamp s' = Inr (time s) \<and>
      \<bar>sint (time s) - sint (clock s)\<bar> \<le> 5)"
proof (intro conjI impI)
  assume "malloc_ok s 0 \<and> malloc_ok s 1 \<and> malloc_ok s 2"
  then show "\<exists>a s'. native_get_system_info s = Inr (Ptr a, s')"
    by (simp add: info_success)
next
  assume ret: "native_get_system_info s = Inr (p, s') \<and> p \<noteq> NULL"
  then have ok: "malloc_ok s 0" "malloc_ok s 1" "malloc_ok s 2"
    using info_returned_cases [of s p s'] by simp_all
  let ?n = "length (heap s)"
  let ?r = "\<lparr>platform = Some (Ptr (?n + 1)), version = Some (Ptr (?n + 2)),
             timestamp = Some (clock s)\<rparr>"
  let ?s' = "s\<lparr>heap := heap s @
                 [Some (Info ?r),
                  Some (Chars (map Some (''iOS'' @ [NUL]))),
                  Some (Chars (map Some (''1.0.0'' @ [NUL])))],
              mallocs := drop 3 (mallocs s)\<rparr>"
  have "native_get_system_info s = Inr (Ptr ?n, ?s')"
    using ok by (rule info_success)
  with ret have p: "p = Ptr ?n" and s': "s' = ?s'"
    by simp_all
  have rec: "load ?s' ?n = Some (Info ?r)"
    by (simp add: load_def nth_append)
  have pl: "c_str ?s' (Ptr (?n + 1)) = Inr ''iOS''"
    by (intro c_str_block) (simp_all add: load_def nth_append)
  have ve: "c_str ?s' (Ptr (?n + 2)) = Inr ''1.0.0''"
    by (intro c_str_block) (simp_all add: load_def nth_append)
  show "info_text p platform s' = Inr ''iOS''"
    unfolding p s' using rec pl by (simp add: info_text_def get_field_def)
  show "info_text p version s' = Inr ''1.0.0''"
    unfolding p s' using rec ve by (simp add: info_text_def get_field_def)
  show "get_field p timestamp s' = Inr (time s)"
    unfolding p s' using rec by (simp add: get_field_def time_def)
  show "\<bar>sint (time s) - sint (clock s)\<bar> \<le> 5"
    by (simp add: time_def)
qed

theorem native_get_system_info_content_witness:
  "malloc_ok (mk_world [] [True, True, True, True, True, True]) 0 \<and>
   malloc_ok (mk_world [] [True, True, True, True, True, True]) 1 \<and>
   malloc_ok (mk_world [] [True, True, True, True, True, True]) 2 \<and>
   (\<exists>s1 s2. native_get_system_info (mk_world [] [True, True, True, True, True, True]) =
              Inr (Ptr 0, s1) \<and>
            info_text (Ptr 0) platform s1 = Inr ''iOS'' \<and>
            info_text (Ptr 0) version s1 = Inr ''1.0.0'' \<and>
            get_field (Ptr 0) timestamp s1 = Inr 1700000000 \<and>
            native_get_system_info s1 = Inr (Ptr 3, s2) \<and>
            info_text (Ptr 3) platform s2 = Inr ''iOS'' \<and>
            info_text (Ptr 3) version s2 = Inr ''1.0.0'' \<and>
            get_field (Ptr 3) timestamp s2 = Inr 1700000000)"
proof -
  let ?w = "mk_world [] [True, True, True, True, True, True]"
  have ok: "malloc_ok ?w 0 \<and> malloc_ok ?w 1 \<and> malloc_ok ?w 2"
    by (simp add: malloc_ok_def mk_world_def)
  then obtain s1 where c1: "native_get_system_info ?w = Inr (Ptr 0, s1)"
    and m1: "mallocs s1 = [True, True, True]" and h1: "length (heap s1) = 3"
    and k0: "time ?w = 1700000000" and k1: "time s1 = 1700000000"
    using info_success [of ?w] by (simp add: mk_world_def time_def)
  have "malloc_ok s1 0" and "malloc_ok s1 1" and "malloc_ok s1 2"
    using m1 by (simp_all add: malloc_ok_def)
  then obtain s2 where c2: "native_get_system_info s1 = Inr (Ptr 3, s2)"
    using info_success [of s1] h1 by simp
  show ?thesis
    using ok c1 c2 k0 k1
      native_get_system_info_content [of ?w "Ptr 0" s1]
      native_get_system_info_content [of s1 "Ptr 3" s2]
    by simp
qed

section \<open>Release\<close>

text \<open>
  C8. Called with \<open>NULL\<close>, \<open>native_free_string\<close> and \<open>native_free_system_info\<close> return
  with the world unchanged: nothing is released and nothing else changes. Called with
  a record whose fields each hold \<open>NULL\<close> or the address of a live block of its own,
  \<open>native_free_system_info\<close> releases the platform buffer if the field is not \<open>NULL\<close>,
  then the version buffer if that field is not \<open>NULL\<close>, then the record, in this order
  (the log of released blocks grows by exactly these addresses), and nothing else.
\<close>

theorem native_free_null_and_order:
  "native_free_string NULL s = Inr s \<and>
   native_free_system_info NULL s = Inr s \<and>
   (load s a = Some (Info r) \<and> platform r = Some p \<and> version r = Some v \<and>
    releasable s p \<and> releasable s v \<and> distinct (addrs p @ addrs v @ [a]) \<longrightarrow>
      native_free_system_info (Ptr a) s =
        Inr (s\<lparr>heap := release_all (addrs p @ addrs v @ [a]) (heap s),
               released := released s @ addrs p @ addrs v @ [a]\<rparr>))"
proof (intro conjI impI)
  show "native_free_string NULL s = Inr s"
    by (simp add: native_free_string_def)
next
  show "native_free_system_info NULL s = Inr s"
    by (simp add: native_free_system_info_def)
next
  assume "load s a = Some (Info r) \<and> platform r = Some p \<and> version r = Some v \<and>
          releasable s p \<and> releasable s v \<and> distinct (addrs p @ addrs v @ [a])"
  then show "native_free_system_info (Ptr a) s =
        Inr (s\<lparr>heap := release_all (addrs p @ addrs v @ [a]) (heap s),
               released := released s @ addrs p @ addrs v @ [a]\<rparr>)"
    using free_info_record [of s a r p v] by blast
qed

theorem native_free_null_and_order_witness:
  "native_free_string NULL (info_world (Ptr 1)) = Inr (info_world (Ptr 1)) \<and>
   native_free_system_info NULL (info_world (Ptr 1)) = Inr (info_world (Ptr 1)) \<and>
   releasable (info_world (Ptr 1)) (Ptr 1) \<and> releasable (info_world (Ptr 1)) (Ptr 2) \<and>
   native_free_system_info (Ptr 0) (info_world (Ptr 1)) =
     Inr ((info_world (Ptr 1))\<lparr>heap := [None, None, None], released := [1, 2, 0]\<rparr>) \<and>
   releasable (info_world NULL) NULL \<and>
   native_free_system_info (Ptr 0) (info_world NULL) =
     Inr ((info_world NULL)
            \<lparr>heap := [None, Some (Chars (map Some (''iOS'' @ [NUL]))), None],
             released := [2, 0]\<rparr>)"
  using native_free_null_and_order [of "info_world (Ptr 1)" 0
      "\<lparr>platform = Some (Ptr 1), version = Some (Ptr 2), timestamp = Some 1700000000\<rparr>"
      "Ptr 1" "Ptr 2"]
    native_free_null_and_order [of "info_world NULL" 0
      "\<lparr>platform = Some NULL, version = Some (Ptr 2), timestamp = Some 1700000000\<rparr>"
      NULL "Ptr 2"]
  by (simp add: info_world_def mk_world_def load_def releasable_def addrs_def release_all_def)


end
